theory Spec2Isabelle
  imports Complex_Main
begin

section \<open>The scoped nested-client context of a distributed worker\<close>

text \<open>
  This theory embeds \<^verbatim>\<open>distributed/worker_client.py\<close>: the generator function
  \<^verbatim>\<open>worker_client\<close>, decorated with \<^verbatim>\<open>contextlib.contextmanager\<close>, and its
  deprecated alias \<^verbatim>\<open>local_client\<close>. The module threads state through calls to its
  collaborators (the configuration, the duration parser, the worker accessors, the thread
  pool, the worker's event loop), so the model passes an explicit state and returns every
  raised exception as a value.
\<close>

subsection \<open>Data\<close>

type_synonym client = nat
type_synonym task_ref = nat
type_synonym thread = nat

text \<open>
  The \<^verbatim>\<open>timeout\<close> parameter is documented as "Number or String"; \<^verbatim>\<open>None\<close> is the
  default. A given timeout is a \<open>duration\<close>, the parameter a \<open>duration option\<close>.
\<close>

datatype duration = Seconds rat | DurStr string

datatype error =
    ConfigKeyError string
  | ParseError string
  | NotInTaskContext
  | ConnectionTimeout
  | AttributeError string
  | KeyError string
  | BlockError string
  | WarningRaised string

text \<open>
  Every call the module makes to a collaborator is recorded, in program order, in the
  field \<open>calls\<close> of the state; \<open>Yield\<close> records that the generator reached its
  \<^verbatim>\<open>yield\<close> and handed the client to the caller's block.
\<close>

datatype call =
    ConfigGet string
  | ParseTimedelta duration
  | GetWorker
  | GetClient rat
  | SecedeCall
  | AddCallback task_ref string
  | Yield client
  | RejoinCall

text \<open>
  What the calling thread finds around it and does not change: the configuration
  dictionary, the grammar of duration strings, the key of the task the thread executes
  (\<^verbatim>\<open>thread_state.key\<close>, absent when the thread executes no worker task), whether a
  connection attempt bounded by a number of seconds succeeds, and the thread's identity.
\<close>

record env =
  config :: "string \<rightharpoonup> duration"
  parse_str :: "string \<rightharpoonup> rat"
  thread_key :: "string option"
  connects_within :: "rat \<Rightarrow> bool"
  me :: thread

text \<open>
  Python's \<^verbatim>\<open>warnings\<close> module, as far as one warning of one category raised at one
  place sees it: the action that the installed filters select for the warning, the
  registry of the raising module (\<^verbatim>\<open>__warningregistry__\<close>, keyed by text and line, line
  0 standing for the whole module), the registry of the action \<^verbatim>\<open>once\<close>, and the
  notices shown so far.
\<close>

datatype filter_action =
    FilterDefault
  | FilterError
  | FilterIgnore
  | FilterAlways
  | FilterModule
  | FilterOnce

record warnings_module =
  filter_action :: filter_action
  registry :: "(string \<times> nat) list"
  onceregistry :: "string list"
  shown :: "string list"

text \<open>
  The mutable state of the worker process: the worker's task table (\<^verbatim>\<open>worker.tasks\<close>,
  from key to task record, a record being an object identity), the queue of the worker's
  event loop, the cached client and the number of connections opened so far, the threads
  counted against the pool and those that have seceded, the pool's own warnings, the
  state of the \<^verbatim>\<open>warnings\<close> module, and the record of calls.
\<close>

record state =
  tasks :: "string \<rightharpoonup> task_ref"
  callbacks :: "(task_ref \<times> string) list"
  cached_client :: "client option"
  connections :: nat
  accounted :: "thread list"
  seceded :: "thread list"
  pool_warnings :: "string list"
  warnings :: warnings_module
  calls :: "call list"

definition log :: "call \<Rightarrow> state \<Rightarrow> state" where
  "log c s = s\<lparr>calls := calls s @ [c]\<rparr>"

definition slots :: "state \<Rightarrow> nat" where
  "slots s = length (accounted s)"

subsection \<open>The collaborators\<close>

text \<open>
  \<^verbatim>\<open>dask.config.get(key)\<close> with no default: a dictionary lookup that raises on an absent
  key.
\<close>

definition config_get :: "env \<Rightarrow> string \<Rightarrow> state \<Rightarrow> (error + duration) \<times> state" where
  "config_get e k s =
     (case config e k of
        None \<Rightarrow> (Inl (ConfigKeyError k), log (ConfigGet k) s)
      | Some d \<Rightarrow> (Inr d, log (ConfigGet k) s))"

text \<open>
  Modelled from the spec: \<^verbatim>\<open>parse_timedelta\<close> of \<^verbatim>\<open>distributed/utils.py\<close> is missing
  from the sources. It is called as \<^verbatim>\<open>parse_timedelta(timeout, "s")\<close>: a number is a
  count of seconds, a duration string is read by the grammar of duration strings (the
  parameter \<open>parse_str\<close>, which the spec does not give), and an unparseable string fails
  with a parse error of its own.
\<close>

definition parse_timedelta :: "env \<Rightarrow> duration \<Rightarrow> state \<Rightarrow> (error + rat) \<times> state" where
  "parse_timedelta e d s =
     (case d of
        Seconds n \<Rightarrow> (Inr n, log (ParseTimedelta d) s)
      | DurStr str \<Rightarrow>
          (case parse_str e str of
             None \<Rightarrow> (Inl (ParseError str), log (ParseTimedelta d) s)
           | Some n \<Rightarrow> (Inr n, log (ParseTimedelta d) s)))"

text \<open>
  Modelled from the spec: \<^verbatim>\<open>get_worker\<close> of \<^verbatim>\<open>distributed/worker.py\<close> is missing from
  the sources. It resolves the worker of the calling thread and signals
  \<open>NotInTaskContext\<close> when the thread executes no worker task. The process has one
  worker, whose task table and event loop are fields of the state, so the returned handle
  carries no data.
\<close>

definition get_worker :: "env \<Rightarrow> state \<Rightarrow> (error + unit) \<times> state" where
  "get_worker e s =
     (case thread_key e of
        None \<Rightarrow> (Inl NotInTaskContext, log GetWorker s)
      | Some k \<Rightarrow> (Inr (), log GetWorker s))"

text \<open>
  Modelled from the spec: \<^verbatim>\<open>get_client\<close> of \<^verbatim>\<open>distributed/worker.py\<close> is missing from
  the sources. It signals \<open>NotInTaskContext\<close> from a thread that executes no worker
  task. Otherwise it returns the cached client of the process when there is one, or
  connects within the timeout, caches the new client and returns it, or signals
  \<open>ConnectionTimeout\<close>. A new client is identified by the number of connections opened
  before it.
\<close>

definition get_client :: "env \<Rightarrow> rat \<Rightarrow> state \<Rightarrow> (error + client) \<times> state" where
  "get_client e t s =
     (case thread_key e of
        None \<Rightarrow> (Inl NotInTaskContext, log (GetClient t) s)
      | Some k \<Rightarrow>
          (case cached_client s of
             Some c \<Rightarrow> (Inr c, log (GetClient t) s)
           | None \<Rightarrow>
               if connects_within e t
               then (Inr (connections s),
                     log (GetClient t)
                       (s\<lparr>cached_client := Some (connections s),
                          connections := Suc (connections s)\<rparr>))
               else (Inl ConnectionTimeout, log (GetClient t) s)))"

text \<open>
  Modelled from the spec: \<^verbatim>\<open>secede\<close> of \<^verbatim>\<open>distributed/threadpoolexecutor.py\<close> is
  missing from the sources. A thread that occupies a pool slot releases it and keeps
  running; from a thread that is not counted against the pool the call is a no-op with a
  warning.
\<close>

definition secede :: "env \<Rightarrow> state \<Rightarrow> state" where
  "secede e s =
     (if me e \<in> set (accounted s)
      then log SecedeCall
             (s\<lparr>accounted := remove1 (me e) (accounted s), seceded := me e # seceded s\<rparr>)
      else log SecedeCall
             (s\<lparr>pool_warnings := pool_warnings s @ [''secede outside pool'']\<rparr>))"

text \<open>
  Modelled from the spec: \<^verbatim>\<open>rejoin\<close> of \<^verbatim>\<open>distributed/threadpoolexecutor.py\<close> is
  missing from the sources. A seceded thread is counted against the pool again; without
  a matching secede the call is a no-op with a warning.
\<close>

definition rejoin :: "env \<Rightarrow> state \<Rightarrow> state" where
  "rejoin e s =
     (if me e \<in> set (seceded s)
      then log RejoinCall
             (s\<lparr>seceded := remove1 (me e) (seceded s), accounted := me e # accounted s\<rparr>)
      else log RejoinCall
             (s\<lparr>pool_warnings := pool_warnings s @ [''rejoin without secede'']\<rparr>))"

text \<open>
  \<^verbatim>\<open>worker.loop.add_callback(worker.transition, ts, status)\<close>: the event loop queues
  the call and returns; the transition itself runs later, on the loop.
\<close>

definition add_callback :: "task_ref \<Rightarrow> string \<Rightarrow> state \<Rightarrow> state" where
  "add_callback ts status s =
     log (AddCallback ts status) (s\<lparr>callbacks := callbacks s @ [(ts, status)]\<rparr>)"

text \<open>
  \<^verbatim>\<open>worker.tasks[thread_state.key]\<close>: reading the attribute of the thread-local object
  raises when it is absent, the subscript raises on a key that is not in the table.
\<close>

definition current_task :: "env \<Rightarrow> state \<Rightarrow> error + task_ref" where
  "current_task e s =
     (case thread_key e of
        None \<Rightarrow> Inl (AttributeError ''key'')
      | Some k \<Rightarrow> (case tasks s k of None \<Rightarrow> Inl (KeyError k) | Some ts \<Rightarrow> Inr ts))"

subsection \<open>Warnings\<close>

text \<open>
  \<^verbatim>\<open>warnings.warn(text)\<close> called at a line of this module, with the default category.
  A warning already in the registry is dropped. Otherwise the action of the filters
  decides: \<^verbatim>\<open>ignore\<close> drops it, \<^verbatim>\<open>error\<close> raises it as an exception,
  \<^verbatim>\<open>always\<close> shows it, \<^verbatim>\<open>default\<close> registers it for the line and shows it,
  \<^verbatim>\<open>module\<close> and \<^verbatim>\<open>once\<close> register it for the line and show it unless it is
  registered for the module, respectively for the process. \<^verbatim>\<open>default\<close> is the action
  Python starts with for this category.
\<close>

definition showwarning :: "string \<Rightarrow> warnings_module \<Rightarrow> warnings_module" where
  "showwarning text w = w\<lparr>shown := shown w @ [text]\<rparr>"

definition warn :: "string \<Rightarrow> nat \<Rightarrow> warnings_module \<Rightarrow> (error + unit) \<times> warnings_module" where
  "warn text lineno w =
     (if (text, lineno) \<in> set (registry w) then (Inr (), w)
      else
        (case filter_action w of
           FilterIgnore \<Rightarrow> (Inr (), w)
         | FilterError \<Rightarrow> (Inl (WarningRaised text), w)
         | FilterOnce \<Rightarrow>
             (let w1 = w\<lparr>registry := (text, lineno) # registry w\<rparr> in
              if text \<in> set (onceregistry w1) then (Inr (), w1)
              else (Inr (), showwarning text (w1\<lparr>onceregistry := text # onceregistry w1\<rparr>)))
         | FilterAlways \<Rightarrow> (Inr (), showwarning text w)
         | FilterModule \<Rightarrow>
             (let w1 = w\<lparr>registry := (text, lineno) # registry w\<rparr> in
              if (text, 0) \<in> set (registry w1) then (Inr (), w1)
              else (Inr (), showwarning text (w1\<lparr>registry := (text, 0) # registry w1\<rparr>)))
         | FilterDefault \<Rightarrow>
             (Inr (), showwarning text (w\<lparr>registry := (text, lineno) # registry w\<rparr>))))"

subsection \<open>Generators as context managers\<close>

text \<open>
  A generator function with one \<^verbatim>\<open>yield\<close> that stands in no \<^verbatim>\<open>try\<close> statement is the
  code up to the yield, which raises or yields a value, and the code after it.
  \<^verbatim>\<open>contextlib.contextmanager\<close> runs the first part on entry. When the block of the
  \<^verbatim>\<open>with\<close> statement completes, it resumes the generator, which runs the second part.
  When the block raises, it throws the exception into the generator at the yield: with no
  \<^verbatim>\<open>try\<close> around the yield the exception leaves the generator at once, none of the code
  after the yield runs, and the \<^verbatim>\<open>with\<close> statement re-raises it.
\<close>

record gen =
  to_yield :: "state \<Rightarrow> (error + client) \<times> state"
  from_yield :: "state \<Rightarrow> (error + unit) \<times> state"

type_synonym block = "client \<Rightarrow> state \<Rightarrow> (error + unit) \<times> state"

definition with_contextmanager :: "gen \<Rightarrow> block \<Rightarrow> state \<Rightarrow> (error + unit) \<times> state" where
  "with_contextmanager g body s =
     (case to_yield g s of
        (Inl err, s1) \<Rightarrow> (Inl err, s1)
      | (Inr c, s1) \<Rightarrow>
          (case body c s1 of
             (Inl err, s2) \<Rightarrow> (Inl err, s2)
           | (Inr u, s2) \<Rightarrow> from_yield g s2))"

subsection \<open>The module\<close>

text \<open>
  Lines 46 to 49 of \<^verbatim>\<open>worker_client\<close>: the configuration is consulted only when
  \<^verbatim>\<open>timeout is None\<close>; the parser is called in either case.
\<close>

definition worker_client_timeout ::
  "env \<Rightarrow> duration option \<Rightarrow> state \<Rightarrow> (error + rat) \<times> state" where
  "worker_client_timeout e timeout s =
     (case (case timeout of
              None \<Rightarrow> config_get e ''distributed.comm.timeouts.connect'' s
            | Some d \<Rightarrow> (Inr d, s)) of
        (Inl err, s1) \<Rightarrow> (Inl err, s1)
      | (Inr d, s1) \<Rightarrow> parse_timedelta e d s1)"

text \<open>Lines 51 and 52: the worker, then the client.\<close>

definition worker_client_acquire :: "env \<Rightarrow> rat \<Rightarrow> state \<Rightarrow> (error + client) \<times> state" where
  "worker_client_acquire e secs s =
     (case get_worker e s of
        (Inl err, s1) \<Rightarrow> (Inl err, s1)
      | (Inr worker, s1) \<Rightarrow> get_client e secs s1)"

text \<open>
  Lines 54 to 57, the body of \<^verbatim>\<open>if separate_thread\<close>: the thread secedes, then the
  arguments of \<^verbatim>\<open>add_callback\<close> are evaluated, the task record among them, then the
  transition is queued.
\<close>

definition worker_client_secede :: "env \<Rightarrow> state \<Rightarrow> (error + unit) \<times> state" where
  "worker_client_secede e s =
     (let s1 = secede e s in
      case current_task e s1 of
        Inl err \<Rightarrow> (Inl err, s1)
      | Inr ts \<Rightarrow> (Inr (), add_callback ts ''long-running'' s1))"

text \<open>Lines 46 to 59: everything up to the yield.\<close>

definition worker_client_to_yield ::
  "env \<Rightarrow> duration option \<Rightarrow> bool \<Rightarrow> state \<Rightarrow> (error + client) \<times> state" where
  "worker_client_to_yield e timeout separate_thread s =
     (case worker_client_timeout e timeout s of
        (Inl err, s1) \<Rightarrow> (Inl err, s1)
      | (Inr secs, s1) \<Rightarrow>
     (case worker_client_acquire e secs s1 of
        (Inl err, s2) \<Rightarrow> (Inl err, s2)
      | (Inr client, s2) \<Rightarrow>
     (case (if separate_thread then worker_client_secede e s2 else (Inr (), s2)) of
        (Inl err, s3) \<Rightarrow> (Inl err, s3)
      | (Inr u, s3) \<Rightarrow> (Inr client, log (Yield client) s3))))"

text \<open>Lines 61 and 62: the code after the yield.\<close>

definition worker_client_from_yield :: "env \<Rightarrow> bool \<Rightarrow> state \<Rightarrow> (error + unit) \<times> state" where
  "worker_client_from_yield e separate_thread s =
     (if separate_thread then (Inr (), rejoin e s) else (Inr (), s))"

definition worker_client :: "env \<Rightarrow> duration option \<Rightarrow> bool \<Rightarrow> gen" where
  "worker_client e timeout separate_thread =
     \<lparr>to_yield = worker_client_to_yield e timeout separate_thread,
      from_yield = worker_client_from_yield e separate_thread\<rparr>"

text \<open>
  Lines 65 to 67: \<^verbatim>\<open>local_client\<close> calls \<^verbatim>\<open>warnings.warn\<close> at line 66 and, unless
  that call raises, returns the generator that \<^verbatim>\<open>worker_client\<close> makes of the same
  arguments.
\<close>

abbreviation notice :: string where
  "notice \<equiv> ''local_client has moved to worker_client''"

definition local_client ::
  "env \<Rightarrow> duration option \<Rightarrow> bool \<Rightarrow> state \<Rightarrow> (error + gen) \<times> state" where
  "local_client e timeout separate_thread s =
     (case warn notice 66 (warnings s) of
        (Inl err, w) \<Rightarrow> (Inl err, s\<lparr>warnings := w\<rparr>)
      | (Inr u, w) \<Rightarrow> (Inr (worker_client e timeout separate_thread), s\<lparr>warnings := w\<rparr>))"

text \<open>The calls made between two states, the second reached from the first.\<close>

definition new_calls :: "state \<Rightarrow> state \<Rightarrow> call list" where
  "new_calls s s' = drop (length (calls s)) (calls s')"

subsection \<open>Classes of calls\<close>

text \<open>Timeout resolution: the configuration and the parser.\<close>

fun resolution_call :: "call \<Rightarrow> bool" where
  "resolution_call (ConfigGet k) = True"
| "resolution_call (ParseTimedelta d) = True"
| "resolution_call c = False"

text \<open>Timeout resolution, worker resolution and client acquisition.\<close>

fun acquisition_call :: "call \<Rightarrow> bool" where
  "acquisition_call (ConfigGet k) = True"
| "acquisition_call (ParseTimedelta d) = True"
| "acquisition_call GetWorker = True"
| "acquisition_call (GetClient t) = True"
| "acquisition_call c = False"

text \<open>Calls that change the pool's accounting or post to the event loop.\<close>

fun pool_call :: "call \<Rightarrow> bool" where
  "pool_call SecedeCall = True"
| "pool_call RejoinCall = True"
| "pool_call (AddCallback ts st) = True"
| "pool_call c = False"

fun is_yield :: "call \<Rightarrow> bool" where
  "is_yield (Yield c) = True"
| "is_yield c = False"

fun is_get_client :: "call \<Rightarrow> bool" where
  "is_get_client (GetClient t) = True"
| "is_get_client c = False"

fun is_config_get :: "call \<Rightarrow> bool" where
  "is_config_get (ConfigGet k) = True"
| "is_config_get c = False"

text \<open>
  \<open>occurs_first P Q xs\<close>: reading \<open>xs\<close> from its head, no call of class \<open>Q\<close> is met
  until a call of class \<open>P\<close> has been met.
\<close>

fun occurs_first :: "(call \<Rightarrow> bool) \<Rightarrow> (call \<Rightarrow> bool) \<Rightarrow> call list \<Rightarrow> bool" where
  "occurs_first P Q [] = True"
| "occurs_first P Q (x # xs) = (if P x then True else if Q x then False else occurs_first P Q xs)"

subsection \<open>A worker process to run the module in\<close>

text \<open>
  Thread 7 of the pool executes the task \<open>inc-1\<close>, whose record is object 42; the
  configured connect timeout is the string \<open>10s\<close>; no client exists yet, the
  scheduler answers within any positive bound, and the warning filters are those Python
  starts with.
\<close>

definition example_env :: env where
  "example_env =
     \<lparr>config = [''distributed.comm.timeouts.connect'' \<mapsto> DurStr ''10s''],
      parse_str = [''10s'' \<mapsto> 10],
      thread_key = Some ''inc-1'',
      connects_within = (\<lambda>t. 0 < t),
      me = 7\<rparr>"

definition example_state :: state where
  "example_state =
     \<lparr>tasks = [''inc-1'' \<mapsto> 42],
      callbacks = [],
      cached_client = None,
      connections = 0,
      accounted = [7],
      seceded = [],
      pool_warnings = [],
      warnings = \<lparr>filter_action = FilterDefault, registry = [], onceregistry = [], shown = []\<rparr>,
      calls = []\<rparr>"

text \<open>The same thread when the scheduler never answers, and a thread that executes no task.\<close>

definition offline_env :: env where
  "offline_env = example_env\<lparr>connects_within := (\<lambda>t. False)\<rparr>"

definition idle_env :: env where
  "idle_env = example_env\<lparr>thread_key := None\<rparr>"

text \<open>Another thread of the pool, executing another task.\<close>

definition other_env :: env where
  "other_env = example_env\<lparr>thread_key := Some ''dec-2'', me := 8\<rparr>"

text \<open>A block that raises at once, and a block that does nothing.\<close>

definition raising_block :: block where
  "raising_block c s = (Inl (BlockError ''boom''), s)"

definition passing_block :: block where
  "passing_block c s = (Inr (), s)"

section \<open>Properties\<close>

subsection \<open>The segments of the generator\<close>

lemmas collab_defs = config_get_def parse_timedelta_def get_worker_def get_client_def
  secede_def rejoin_def add_callback_def current_task_def log_def

lemmas wc_defs = worker_client_timeout_def worker_client_acquire_def worker_client_secede_def
  worker_client_to_yield_def worker_client_from_yield_def worker_client_def

lemmas example_defs = example_env_def example_state_def offline_env_def idle_env_def
  raising_block_def passing_block_def
  with_contextmanager_def wc_defs collab_defs slots_def new_calls_def

lemma new_calls_append [simp]: "new_calls s (s\<lparr>calls := calls s @ xs\<rparr>) = xs"
  by (simp add: new_calls_def)

lemma timeout_ok:
  assumes "worker_client_timeout e timeout s = (Inr secs, s1)"
  obtains d where
    "timeout = Some d \<or> (timeout = None \<and> config e ''distributed.comm.timeouts.connect'' = Some d)"
    "fst (parse_timedelta e d s) = Inr secs"
    "s1 = s\<lparr>calls := calls s @
            (case timeout of None \<Rightarrow> [ConfigGet ''distributed.comm.timeouts.connect''] | Some x \<Rightarrow> [])
            @ [ParseTimedelta d]\<rparr>"
  using assms
  by (cases timeout; cases "config e ''distributed.comm.timeouts.connect''")
     (auto simp: worker_client_timeout_def config_get_def parse_timedelta_def log_def
           split: duration.splits option.splits)

lemma timeout_fail:
  assumes "worker_client_timeout e timeout s = (Inl err, s1)"
  shows "\<exists>xs. s1 = s\<lparr>calls := calls s @ xs\<rparr> \<and> list_all resolution_call xs"
  using assms
  by (cases timeout; cases "config e ''distributed.comm.timeouts.connect''")
     (auto simp: worker_client_timeout_def config_get_def parse_timedelta_def log_def
           split: duration.splits option.splits)


lemma current_task_cong: "tasks s' = tasks s \<Longrightarrow> current_task e s' = current_task e s"
  by (auto simp: current_task_def split: option.splits)

lemma worker_client_fields:
  "to_yield (worker_client e timeout sep) = worker_client_to_yield e timeout sep"
  "from_yield (worker_client e timeout sep) s =
     (if sep then (Inr (), rejoin e s) else (Inr (), s))"
  by (simp_all add: worker_client_def worker_client_from_yield_def)

lemma timeout_trace:
  "\<exists>xs. snd (worker_client_timeout e timeout s) = s\<lparr>calls := calls s @ xs\<rparr>
        \<and> list_all resolution_call xs \<and> xs \<noteq> []"
  by (cases timeout; cases "config e ''distributed.comm.timeouts.connect''")
     (auto simp: worker_client_timeout_def config_get_def parse_timedelta_def log_def
           split: duration.splits option.splits)

lemma acquire_ok:
  assumes "worker_client_acquire e secs s1 = (Inr c, s2)"
  shows "calls s2 = calls s1 @ [GetWorker, GetClient secs]"
    and "cached_client s2 = Some c"
    and "tasks s2 = tasks s1"
    and "callbacks s2 = callbacks s1"
    and "accounted s2 = accounted s1"
    and "seceded s2 = seceded s1"
    and "pool_warnings s2 = pool_warnings s1"
    and "warnings s2 = warnings s1"
    and "thread_key e \<noteq> None"
    and "cached_client s1 = Some c' \<Longrightarrow> c = c' \<and> connections s2 = connections s1"
    and "connections s2 \<le> Suc (connections s1)"
  using assms
  by (auto simp: worker_client_acquire_def get_worker_def get_client_def log_def
           split: option.splits if_splits)

lemma acquire_fail:
  assumes "worker_client_acquire e secs s1 = (Inl err, s2)"
  shows "(err = NotInTaskContext \<and> thread_key e = None \<and> s2 = s1\<lparr>calls := calls s1 @ [GetWorker]\<rparr>)
       \<or> (err = ConnectionTimeout \<and> thread_key e \<noteq> None \<and> cached_client s1 = None
            \<and> \<not> connects_within e secs
            \<and> s2 = s1\<lparr>calls := calls s1 @ [GetWorker, GetClient secs]\<rparr>)"
  using assms
  by (auto simp: worker_client_acquire_def get_worker_def get_client_def log_def
           split: option.splits if_splits)

lemma secede_ok:
  assumes "worker_client_secede e s2 = (Inr u, s3)"
  obtains ts where
    "current_task e s2 = Inr ts"
    "calls s3 = calls s2 @ [SecedeCall, AddCallback ts ''long-running'']"
    "callbacks s3 = callbacks s2 @ [(ts, ''long-running'')]"
    "accounted s3 = remove1 (me e) (accounted s2)"
    "tasks s3 = tasks s2"
    "cached_client s3 = cached_client s2"
    "connections s3 = connections s2"
    "warnings s3 = warnings s2"
  using assms
  by (auto simp: worker_client_secede_def secede_def add_callback_def current_task_def log_def
                 Let_def remove1_idem
           split: option.splits if_splits sum.splits)

lemma secede_fail:
  assumes "worker_client_secede e s2 = (Inl err, s3)"
  shows "calls s3 = calls s2 @ [SecedeCall]"
    and "current_task e s2 = Inl err"
    and "callbacks s3 = callbacks s2"
    and "tasks s3 = tasks s2"
  using assms
  by (auto simp: worker_client_secede_def secede_def add_callback_def current_task_def log_def
                 Let_def
           split: option.splits if_splits sum.splits)

lemma to_yield_ok:
  assumes "worker_client_to_yield e timeout sep s = (Inr c, s')"
  obtains secs s1 s2 s3 where
    "worker_client_timeout e timeout s = (Inr secs, s1)"
    "worker_client_acquire e secs s1 = (Inr c, s2)"
    "(if sep then worker_client_secede e s2 else (Inr (), s2)) = (Inr (), s3)"
    "s' = log (Yield c) s3"
  using assms
  by (auto simp: worker_client_to_yield_def split: prod.splits sum.splits)

lemma to_yield_fail:
  assumes "worker_client_to_yield e timeout sep s = (Inl err, s')"
  obtains
    (timeout) "worker_client_timeout e timeout s = (Inl err, s')"
  | (acquire) secs s1 where
      "worker_client_timeout e timeout s = (Inr secs, s1)"
      "worker_client_acquire e secs s1 = (Inl err, s')"
  | (secede) secs s1 c s2 where
      "sep"
      "worker_client_timeout e timeout s = (Inr secs, s1)"
      "worker_client_acquire e secs s1 = (Inr c, s2)"
      "worker_client_secede e s2 = (Inl err, s')"
  using assms
  by (auto simp: worker_client_to_yield_def split: prod.splits sum.splits if_splits)

subsection \<open>Secession precedes the yield\<close>

text \<open>
  C4: when \<^verbatim>\<open>worker_client\<close> is entered with \<^verbatim>\<open>separate_thread=True\<close> and yields a
  client, the calls it has made are, in this order, the timeout resolution, \<^verbatim>\<open>get_worker\<close>,
  \<^verbatim>\<open>get_client\<close>, \<^verbatim>\<open>secede\<close>, \<^verbatim>\<open>add_callback\<close> with the record of the current task
  and the status \<open>long-running\<close>, and only then the yield. In the state handed to the
  caller's block the thread is no longer counted against the pool and the transition
  request stands last in the queue of the event loop; it has been queued, not run, and the
  task table is as it was. The block, and so every nested submission, runs in that state.
\<close>

theorem worker_client_secedes_before_yield:
  assumes "to_yield (worker_client e timeout True) s = (Inr c, s')"
  shows "\<exists>d secs ts.
           new_calls s s' =
             (case timeout of
                None \<Rightarrow> [ConfigGet ''distributed.comm.timeouts.connect'']
              | Some x \<Rightarrow> [])
             @ [ParseTimedelta d, GetWorker, GetClient secs,
                SecedeCall, AddCallback ts ''long-running'', Yield c]
         \<and> current_task e s = Inr ts
         \<and> callbacks s' = callbacks s @ [(ts, ''long-running'')]
         \<and> accounted s' = remove1 (me e) (accounted s)
         \<and> tasks s' = tasks s
         \<and> with_contextmanager (worker_client e timeout True) body s =
             (case body c s' of
                (Inl err, s2) \<Rightarrow> (Inl err, s2)
              | (Inr u, s2) \<Rightarrow> (Inr (), rejoin e s2))"
proof -
  from assms have run: "worker_client_to_yield e timeout True s = (Inr c, s')"
    by (simp add: worker_client_def)
  then obtain secs s1 s2 s3 where
    t: "worker_client_timeout e timeout s = (Inr secs, s1)" and
    a: "worker_client_acquire e secs s1 = (Inr c, s2)" and
    sc: "worker_client_secede e s2 = (Inr (), s3)" and
    y: "s' = log (Yield c) s3"
    by (auto elim!: to_yield_ok)
  from t obtain d where
    s1: "s1 = s\<lparr>calls := calls s @
            (case timeout of None \<Rightarrow> [ConfigGet ''distributed.comm.timeouts.connect''] | Some x \<Rightarrow> [])
            @ [ParseTimedelta d]\<rparr>"
    by (rule timeout_ok)
  from sc obtain ts where
    ct: "current_task e s2 = Inr ts" and
    c3: "calls s3 = calls s2 @ [SecedeCall, AddCallback ts ''long-running'']" and
    cb3: "callbacks s3 = callbacks s2 @ [(ts, ''long-running'')]" and
    ac3: "accounted s3 = remove1 (me e) (accounted s2)" and
    tk3: "tasks s3 = tasks s2"
    by (rule secede_ok)
  have trace: "new_calls s s' =
      (case timeout of None \<Rightarrow> [ConfigGet ''distributed.comm.timeouts.connect''] | Some x \<Rightarrow> [])
      @ [ParseTimedelta d, GetWorker, GetClient secs,
         SecedeCall, AddCallback ts ''long-running'', Yield c]"
    by (simp add: new_calls_def y log_def c3 acquire_ok(1)[OF a] s1)
  have task: "current_task e s = Inr ts"
    using ct current_task_cong [of s2 s e] by (simp add: acquire_ok(3)[OF a] s1)
  have queue: "callbacks s' = callbacks s @ [(ts, ''long-running'')]"
    by (simp add: y log_def cb3 acquire_ok(4)[OF a] s1)
  have pool: "accounted s' = remove1 (me e) (accounted s)"
    by (simp add: y log_def ac3 acquire_ok(5)[OF a] s1)
  have table: "tasks s' = tasks s"
    by (simp add: y log_def tk3 acquire_ok(3)[OF a] s1)
  have scope: "with_contextmanager (worker_client e timeout True) body s =
             (case body c s' of
                (Inl err, s2) \<Rightarrow> (Inl err, s2)
              | (Inr u, s2) \<Rightarrow> (Inr (), rejoin e s2))"
    using run
    by (simp add: with_contextmanager_def worker_client_fields split: prod.splits sum.splits)
  from trace task queue pool table scope show ?thesis by blast
qed


theorem worker_client_secedes_before_yield_witness:
  "to_yield (worker_client example_env None True) example_state =
     (Inr 0, snd (to_yield (worker_client example_env None True) example_state))
   \<and> callbacks (snd (to_yield (worker_client example_env None True) example_state)) =
       [(42, ''long-running'')]
   \<and> accounted (snd (to_yield (worker_client example_env None True) example_state)) = []
   \<and> with_contextmanager (worker_client example_env None True) passing_block example_state =
       (Inr (), rejoin example_env
          (snd (to_yield (worker_client example_env None True) example_state)))"
proof -
  define s' where "s' = snd (to_yield (worker_client example_env None True) example_state)"
  have entered: "to_yield (worker_client example_env None True) example_state = (Inr 0, s')"
    unfolding s'_def by (simp add: example_defs)
  have task: "current_task example_env example_state = Inr 42"
    by (simp add: example_defs)
  from worker_client_secedes_before_yield [OF entered, of passing_block]
  obtain ts where
    bound: "current_task example_env example_state = Inr ts" and
    queue: "callbacks s' = callbacks example_state @ [(ts, ''long-running'')]" and
    pool: "accounted s' = remove1 (me example_env) (accounted example_state)" and
    scope: "with_contextmanager (worker_client example_env None True) passing_block
              example_state =
            (case passing_block 0 s' of
               (Inl err, s2) \<Rightarrow> (Inl err, s2)
             | (Inr u, s2) \<Rightarrow> (Inr (), rejoin example_env s2))"
    by blast
  from bound task have ts: "ts = 42" by simp
  have "callbacks s' = [(42, ''long-running'')]"
    using queue ts by (simp add: example_state_def)
  moreover have "accounted s' = []"
    using pool by (simp add: example_state_def example_env_def)
  moreover have "with_contextmanager (worker_client example_env None True) passing_block
      example_state = (Inr (), rejoin example_env s')"
    using scope by (simp add: passing_block_def)
  ultimately show ?thesis
    using entered unfolding s'_def by simp
qed

lemma resolution_is_acquisition: "resolution_call c \<Longrightarrow> acquisition_call c"
  by (cases c) simp_all

lemma list_all_resolution:
  "list_all resolution_call xs \<Longrightarrow> list_all acquisition_call xs"
  by (induction xs) (simp_all add: resolution_is_acquisition)

lemma to_yield_trace:
  "\<exists>xs ys. calls (snd (worker_client_to_yield e timeout sep s)) = calls s @ xs @ ys
          \<and> list_all resolution_call xs
          \<and> (ys = [] \<or> ys = [GetWorker] \<or> (\<exists>secs zs. ys = GetWorker # GetClient secs # zs))"
proof (cases "worker_client_to_yield e timeout sep s")
  case (Pair r s')
  show ?thesis
  proof (cases r)
    case (Inr c)
    with Pair obtain secs s1 s2 s3 where
      t: "worker_client_timeout e timeout s = (Inr secs, s1)" and
      a: "worker_client_acquire e secs s1 = (Inr c, s2)" and
      sc: "(if sep then worker_client_secede e s2 else (Inr (), s2)) = (Inr (), s3)" and
      y: "s' = log (Yield c) s3"
      by (auto elim!: to_yield_ok)
    from timeout_trace [of e timeout s] t obtain xs where
      s1: "s1 = s\<lparr>calls := calls s @ xs\<rparr>" and xs: "list_all resolution_call xs"
      by auto
    have "\<exists>zs. calls s3 = calls s2 @ zs"
    proof (cases sep)
      case True
      with sc have "worker_client_secede e s2 = (Inr (), s3)" by simp
      then show ?thesis by (rule secede_ok) simp
    next
      case False
      with sc show ?thesis by simp
    qed
    then obtain zs where "calls s3 = calls s2 @ zs" ..
    then have "calls s' = calls s @ xs @ (GetWorker # GetClient secs # (zs @ [Yield c]))"
      by (simp add: y log_def acquire_ok(1)[OF a] s1)
    with xs Pair show ?thesis
      by (intro exI [of _ xs] exI [of _ "GetWorker # GetClient secs # (zs @ [Yield c])"]) simp
  next
    case (Inl err)
    with Pair have run: "worker_client_to_yield e timeout sep s = (Inl err, s')" by simp
    then show ?thesis
    proof (cases rule: to_yield_fail)
      case timeout
      from timeout_fail [OF timeout] obtain xs where
        "s' = s\<lparr>calls := calls s @ xs\<rparr>" "list_all resolution_call xs" by blast
      then have "calls s' = calls s @ xs @ []" by simp
      with \<open>list_all resolution_call xs\<close> Pair show ?thesis
        by (intro exI [of _ xs] exI [of _ "[]"]) simp
    next
      case (acquire secs s1)
      from timeout_trace [of e timeout s] acquire(1) obtain xs where
        s1: "s1 = s\<lparr>calls := calls s @ xs\<rparr>" and xs: "list_all resolution_call xs"
        by auto
      from acquire_fail [OF acquire(2)]
      have "calls s' = calls s1 @ [GetWorker] \<or> calls s' = calls s1 @ [GetWorker, GetClient secs]"
        by auto
      then consider "calls s' = calls s @ xs @ [GetWorker]"
        | "calls s' = calls s @ xs @ (GetWorker # GetClient secs # [])"
        by (auto simp: s1)
      then show ?thesis
      proof cases
        case 1
        with xs Pair show ?thesis
          by (intro exI [of _ xs] exI [of _ "[GetWorker]"]) simp
      next
        case 2
        with xs Pair show ?thesis
          by (intro exI [of _ xs] exI [of _ "[GetWorker, GetClient secs]"]) simp
      qed
    next
      case (secede secs s1 c s2)
      from timeout_trace [of e timeout s] secede(2) obtain xs where
        s1: "s1 = s\<lparr>calls := calls s @ xs\<rparr>" and xs: "list_all resolution_call xs"
        by auto
      have "calls s' = calls s @ xs @ (GetWorker # GetClient secs # [SecedeCall])"
        by (simp add: secede_fail(1)[OF secede(4)] acquire_ok(1)[OF secede(3)] s1)
      with xs Pair show ?thesis
        by (intro exI [of _ xs] exI [of _ "[GetWorker, GetClient secs, SecedeCall]"]) simp
    qed
  qed
qed

lemma occurs_first_skip:
  assumes "list_all R xs" and "\<And>c. R c \<Longrightarrow> \<not> P c \<and> \<not> Q c"
  shows "occurs_first P Q (xs @ ys) = occurs_first P Q ys"
  using assms by (induction xs) simp_all

lemma to_yield_calls_prefix:
  "calls (snd (worker_client_to_yield e timeout sep s)) =
     calls s @ new_calls s (snd (worker_client_to_yield e timeout sep s))"
proof -
  from to_yield_trace [of e timeout sep s] obtain xs ys where
    "calls (snd (worker_client_to_yield e timeout sep s)) = calls s @ xs @ ys"
    by blast
  then show ?thesis by (simp add: new_calls_def)
qed

lemma worker_first:
  "occurs_first (\<lambda>c. c = GetWorker) (\<lambda>c. is_get_client c \<or> c = SecedeCall)
     (new_calls s (snd (worker_client_to_yield e timeout sep s)))"
proof -
  from to_yield_trace [of e timeout sep s] obtain xs ys where
    c: "calls (snd (worker_client_to_yield e timeout sep s)) = calls s @ xs @ ys" and
    xs: "list_all resolution_call xs" and
    ys: "ys = [] \<or> ys = [GetWorker] \<or> (\<exists>secs zs. ys = GetWorker # GetClient secs # zs)"
    by blast
  have skip: "\<And>c. resolution_call c \<Longrightarrow>
      \<not> c = GetWorker \<and> \<not> (is_get_client c \<or> c = SecedeCall)"
    subgoal for c by (cases c) simp_all
    done
  have n: "new_calls s (snd (worker_client_to_yield e timeout sep s)) = xs @ ys"
    by (simp add: new_calls_def c)
  have "occurs_first (\<lambda>c. c = GetWorker) (\<lambda>c. is_get_client c \<or> c = SecedeCall) (xs @ ys)
      = occurs_first (\<lambda>c. c = GetWorker) (\<lambda>c. is_get_client c \<or> c = SecedeCall) ys"
    using xs skip by (rule occurs_first_skip)
  with ys show ?thesis
    unfolding n by auto
qed

lemma client_first:
  "occurs_first is_get_client (\<lambda>c. c = SecedeCall)
     (new_calls s (snd (worker_client_to_yield e timeout sep s)))"
proof -
  from to_yield_trace [of e timeout sep s] obtain xs ys where
    c: "calls (snd (worker_client_to_yield e timeout sep s)) = calls s @ xs @ ys" and
    xs: "list_all resolution_call xs" and
    ys: "ys = [] \<or> ys = [GetWorker] \<or> (\<exists>secs zs. ys = GetWorker # GetClient secs # zs)"
    by blast
  have skip: "\<And>c. resolution_call c \<Longrightarrow> \<not> is_get_client c \<and> \<not> c = SecedeCall"
    subgoal for c by (cases c) simp_all
    done
  have n: "new_calls s (snd (worker_client_to_yield e timeout sep s)) = xs @ ys"
    by (simp add: new_calls_def c)
  have "occurs_first is_get_client (\<lambda>c. c = SecedeCall) (xs @ ys)
      = occurs_first is_get_client (\<lambda>c. c = SecedeCall) ys"
    using xs skip by (rule occurs_first_skip)
  with ys show ?thesis
    unfolding n by auto
qed


lemma acquisition_no_yield: "list_all acquisition_call ws \<Longrightarrow> filter is_yield ws = []"
proof (induction ws)
  case Nil
  show ?case by simp
next
  case (Cons w ws)
  then show ?case by (cases w) simp_all
qed

lemma acquisition_no_pool: "list_all acquisition_call ws \<Longrightarrow> filter pool_call ws = []"
proof (induction ws)
  case Nil
  show ?case by simp
next
  case (Cons w ws)
  then show ?case by (cases w) simp_all
qed

lemma acquisition_no_secede: "list_all acquisition_call ws \<Longrightarrow> SecedeCall \<notin> set ws"
  by (induction ws) auto

lemma acquisition_no_get_client:
  "list_all resolution_call ws \<Longrightarrow> filter is_get_client ws = []"
proof (induction ws)
  case Nil
  show ?case by simp
next
  case (Cons w ws)
  then show ?case by (cases w) simp_all
qed

lemma timeout_fail_error:
  assumes "worker_client_timeout e timeout s = (Inl err, s1)"
  shows "(\<exists>k. err = ConfigKeyError k) \<or> (\<exists>str. err = ParseError str)"
  using assms
  by (cases timeout; cases "config e ''distributed.comm.timeouts.connect''")
     (auto simp: worker_client_timeout_def config_get_def parse_timedelta_def log_def
           split: duration.splits option.splits)

lemma acquire_shape:
  "\<exists>zs cc n. snd (worker_client_acquire e secs s1) =
       s1\<lparr>calls := calls s1 @ zs, cached_client := cc, connections := n\<rparr>
     \<and> list_all acquisition_call zs"
proof (cases "worker_client_acquire e secs s1")
  case (Pair r s2)
  show ?thesis
  proof (cases r)
    case (Inl err)
    with Pair acquire_fail [of e secs s1 err s2]
    have "s2 = s1\<lparr>calls := calls s1 @ [GetWorker]\<rparr>
        \<or> s2 = s1\<lparr>calls := calls s1 @ [GetWorker, GetClient secs]\<rparr>"
      by auto
    then show ?thesis
    proof
      assume "s2 = s1\<lparr>calls := calls s1 @ [GetWorker]\<rparr>"
      with Pair show ?thesis
        by (intro exI [of _ "[GetWorker]"] exI [of _ "cached_client s1"]
                  exI [of _ "connections s1"]) simp
    next
      assume "s2 = s1\<lparr>calls := calls s1 @ [GetWorker, GetClient secs]\<rparr>"
      with Pair show ?thesis
        by (intro exI [of _ "[GetWorker, GetClient secs]"] exI [of _ "cached_client s1"]
                  exI [of _ "connections s1"]) simp
    qed
  next
    case (Inr c)
    with Pair have a: "worker_client_acquire e secs s1 = (Inr c, s2)" by simp
    have "s2 = s1\<lparr>calls := calls s1 @ [GetWorker, GetClient secs],
                  cached_client := cached_client s2, connections := connections s2\<rparr>"
      using a
      by (auto simp: worker_client_acquire_def get_worker_def get_client_def log_def
               split: option.splits if_splits)
    with Pair show ?thesis
      by (intro exI [of _ "[GetWorker, GetClient secs]"] exI [of _ "cached_client s2"]
                exI [of _ "connections s2"]) simp
  qed
qed

lemma same_thread_shape:
  "\<exists>ws cc n. snd (worker_client_to_yield e timeout False s) =
       s\<lparr>calls := calls s @ ws, cached_client := cc, connections := n\<rparr>
     \<and> list_all (\<lambda>c. acquisition_call c \<or> is_yield c) ws"
proof -
  from timeout_trace [of e timeout s] obtain xs where
    t: "snd (worker_client_timeout e timeout s) = s\<lparr>calls := calls s @ xs\<rparr>" and
    xs: "list_all resolution_call xs"
    by blast
  from xs have xs': "list_all (\<lambda>c. acquisition_call c \<or> is_yield c) xs"
    by (induction xs) (simp_all add: resolution_is_acquisition)
  show ?thesis
  proof (cases "worker_client_timeout e timeout s")
    case (Pair r1 s1)
    with t have s1: "s1 = s\<lparr>calls := calls s @ xs\<rparr>" by simp
    show ?thesis
    proof (cases r1)
      case (Inl err)
      with Pair have "worker_client_to_yield e timeout False s = (Inl err, s1)"
        by (simp add: worker_client_to_yield_def)
      with s1 xs' show ?thesis
        by (intro exI [of _ xs] exI [of _ "cached_client s"] exI [of _ "connections s"]) simp
    next
      case (Inr secs)
      from acquire_shape [of e secs s1] obtain zs cc n where
        a: "snd (worker_client_acquire e secs s1) =
              s1\<lparr>calls := calls s1 @ zs, cached_client := cc, connections := n\<rparr>" and
        zs: "list_all acquisition_call zs"
        by blast
      from zs have zs': "list_all (\<lambda>c. acquisition_call c \<or> is_yield c) zs"
        by (induction zs) simp_all
      show ?thesis
      proof (cases "worker_client_acquire e secs s1")
        case (Pair r2 s2)
        with a have s2: "s2 = s\<lparr>calls := calls s @ xs @ zs, cached_client := cc, connections := n\<rparr>"
          by (simp add: s1)
        show ?thesis
        proof (cases r2)
          case (Inl err)
          with Pair Inr \<open>worker_client_timeout e timeout s = (r1, s1)\<close>
          have "worker_client_to_yield e timeout False s = (Inl err, s2)"
            by (simp add: worker_client_to_yield_def)
          with s2 xs' zs' show ?thesis
            by (intro exI [of _ "xs @ zs"] exI [of _ cc] exI [of _ n]) simp
        next
          case (Inr c)
          with Pair \<open>r1 = Inr secs\<close> \<open>worker_client_timeout e timeout s = (r1, s1)\<close>
          have "worker_client_to_yield e timeout False s = (Inr c, log (Yield c) s2)"
            by (simp add: worker_client_to_yield_def)
          with s2 xs' zs' show ?thesis
            by (intro exI [of _ "xs @ zs @ [Yield c]"] exI [of _ cc] exI [of _ n])
               (simp add: log_def)
        qed
      qed
    qed
  qed
qed

subsection \<open>Entering without leaving the pool\<close>

text \<open>
  C2: with \<^verbatim>\<open>separate_thread=False\<close> the generator calls neither \<^verbatim>\<open>secede\<close> nor
  \<^verbatim>\<open>rejoin\<close> and posts nothing to the event loop. Up to the yield it makes only calls
  of timeout resolution, worker resolution and client acquisition, and leaves the pool's
  accounting, the queue of the event loop and the task table as they were; after the yield
  it does nothing, so the whole scope is the entry followed by the caller's block.
\<close>

theorem worker_client_same_thread:
  "from_yield (worker_client e timeout False) s = (Inr (), s)
   \<and> accounted (snd (to_yield (worker_client e timeout False) s)) = accounted s
   \<and> seceded (snd (to_yield (worker_client e timeout False) s)) = seceded s
   \<and> pool_warnings (snd (to_yield (worker_client e timeout False) s)) = pool_warnings s
   \<and> callbacks (snd (to_yield (worker_client e timeout False) s)) = callbacks s
   \<and> tasks (snd (to_yield (worker_client e timeout False) s)) = tasks s
   \<and> calls (snd (to_yield (worker_client e timeout False) s)) =
       calls s @ new_calls s (snd (to_yield (worker_client e timeout False) s))
   \<and> filter pool_call (new_calls s (snd (to_yield (worker_client e timeout False) s))) = []
   \<and> list_all (\<lambda>c. acquisition_call c \<or> is_yield c)
        (new_calls s (snd (to_yield (worker_client e timeout False) s)))
   \<and> with_contextmanager (worker_client e timeout False) body s =
       (case to_yield (worker_client e timeout False) s of
          (Inl err, s1) \<Rightarrow> (Inl err, s1)
        | (Inr c, s1) \<Rightarrow> body c s1)"
proof -
  from same_thread_shape [of e timeout s] obtain ws cc n where
    shape: "snd (worker_client_to_yield e timeout False s) =
              s\<lparr>calls := calls s @ ws, cached_client := cc, connections := n\<rparr>" and
    ws: "list_all (\<lambda>c. acquisition_call c \<or> is_yield c) ws"
    by blast
  have quiet: "filter pool_call ws = []"
    using ws
  proof (induction ws)
    case Nil
    show ?case by simp
  next
    case (Cons w ws)
    then show ?case by (cases w) simp_all
  qed
  have new: "new_calls s (snd (worker_client_to_yield e timeout False s)) = ws"
    by (simp add: shape new_calls_def)
  have resume: "from_yield (worker_client e timeout False) s = (Inr (), s)"
    by (simp add: worker_client_fields)
  have scope: "with_contextmanager (worker_client e timeout False) body s =
       (case to_yield (worker_client e timeout False) s of
          (Inl err, s1) \<Rightarrow> (Inl err, s1)
        | (Inr c, s1) \<Rightarrow> body c s1)"
    by (simp add: with_contextmanager_def worker_client_fields split: prod.splits sum.splits)
  show ?thesis
    unfolding worker_client_fields(1) new
    using resume scope [unfolded worker_client_fields(1)] quiet ws
    by (simp add: shape worker_client_fields(1))
qed


theorem worker_client_same_thread_witness:
  "from_yield (worker_client example_env None False) example_state = (Inr (), example_state)
   \<and> accounted (snd (to_yield (worker_client example_env None False) example_state)) = [7]
   \<and> callbacks (snd (to_yield (worker_client example_env None False) example_state)) = []
   \<and> new_calls example_state
        (snd (to_yield (worker_client example_env None False) example_state)) =
       [ConfigGet ''distributed.comm.timeouts.connect'', ParseTimedelta (DurStr ''10s''),
        GetWorker, GetClient 10, Yield 0]"
proof -
  have trace: "new_calls example_state
        (snd (to_yield (worker_client example_env None False) example_state)) =
       [ConfigGet ''distributed.comm.timeouts.connect'', ParseTimedelta (DurStr ''10s''),
        GetWorker, GetClient 10, Yield 0]"
    by (simp add: example_defs)
  from worker_client_same_thread [of example_env None example_state passing_block] trace
  show ?thesis
    by (simp add: example_state_def)
qed

subsection \<open>Failure to acquire the client\<close>

text \<open>
  C3: in every run \<^verbatim>\<open>get_client\<close> is called before any \<^verbatim>\<open>secede\<close>. When the timeout
  has been resolved and the acquisition of lines 51 and 52 fails, because \<^verbatim>\<open>get_worker\<close>
  fails or \<^verbatim>\<open>get_client\<close> times out, the error is the result of the generator and of the
  whole \<^verbatim>\<open>with\<close> statement, whatever the block is: the block is not entered, nothing
  is yielded, \<^verbatim>\<open>secede\<close> is not called and the pool's accounting is untouched.
\<close>

theorem worker_client_acquisition_failure:
  "occurs_first is_get_client (\<lambda>c. c = SecedeCall)
     (new_calls s (snd (to_yield (worker_client e timeout sep) s)))
   \<and> (worker_client_timeout e timeout s = (Inr secs, s1) \<longrightarrow>
      worker_client_acquire e secs s1 = (Inl err, s2) \<longrightarrow>
        to_yield (worker_client e timeout sep) s = (Inl err, s2)
      \<and> with_contextmanager (worker_client e timeout sep) body s = (Inl err, s2)
      \<and> (err = NotInTaskContext \<or> err = ConnectionTimeout)
      \<and> list_all acquisition_call (new_calls s s2)
      \<and> SecedeCall \<notin> set (new_calls s s2)
      \<and> filter is_yield (new_calls s s2) = []
      \<and> accounted s2 = accounted s \<and> seceded s2 = seceded s
      \<and> callbacks s2 = callbacks s)"
proof -
  have order: "occurs_first is_get_client (\<lambda>c. c = SecedeCall)
     (new_calls s (snd (to_yield (worker_client e timeout sep) s)))"
    unfolding worker_client_fields(1) by (rule client_first)
  have failure: "to_yield (worker_client e timeout sep) s = (Inl err, s2)
      \<and> with_contextmanager (worker_client e timeout sep) body s = (Inl err, s2)
      \<and> (err = NotInTaskContext \<or> err = ConnectionTimeout)
      \<and> list_all acquisition_call (new_calls s s2)
      \<and> SecedeCall \<notin> set (new_calls s s2)
      \<and> filter is_yield (new_calls s s2) = []
      \<and> accounted s2 = accounted s \<and> seceded s2 = seceded s
      \<and> callbacks s2 = callbacks s"
    if t: "worker_client_timeout e timeout s = (Inr secs, s1)"
    and a: "worker_client_acquire e secs s1 = (Inl err, s2)"
  proof -
    have run: "to_yield (worker_client e timeout sep) s = (Inl err, s2)"
      by (simp add: worker_client_fields worker_client_to_yield_def t a)
    then have scope: "with_contextmanager (worker_client e timeout sep) body s = (Inl err, s2)"
      by (simp add: with_contextmanager_def)
    from timeout_trace [of e timeout s] t obtain xs where
      s1: "s1 = s\<lparr>calls := calls s @ xs\<rparr>" and xs: "list_all resolution_call xs"
      by auto
    from xs have xs': "list_all acquisition_call xs" by (rule list_all_resolution)
    from acquire_fail [OF a] consider
      (worker) "err = NotInTaskContext" "s2 = s1\<lparr>calls := calls s1 @ [GetWorker]\<rparr>"
    | (client) "err = ConnectionTimeout" "s2 = s1\<lparr>calls := calls s1 @ [GetWorker, GetClient secs]\<rparr>"
      by blast
    then have rest: "(err = NotInTaskContext \<or> err = ConnectionTimeout)
      \<and> list_all acquisition_call (new_calls s s2)
      \<and> accounted s2 = accounted s \<and> seceded s2 = seceded s
      \<and> callbacks s2 = callbacks s"
    proof cases
      case worker
      with xs' show ?thesis by (simp add: s1 new_calls_def)
    next
      case client
      with xs' show ?thesis by (simp add: s1 new_calls_def)
    qed
    then have all: "list_all acquisition_call (new_calls s s2)" by simp
    have "SecedeCall \<notin> set (new_calls s s2)"
      using all by (rule acquisition_no_secede)
    moreover have "filter is_yield (new_calls s s2) = []"
      using all by (rule acquisition_no_yield)
    ultimately show ?thesis using run scope rest by simp
  qed
  from order failure show ?thesis by blast
qed


theorem worker_client_acquisition_failure_witness:
  "worker_client_timeout offline_env None example_state =
     (Inr 10, snd (worker_client_timeout offline_env None example_state))
   \<and> worker_client_acquire offline_env 10
        (snd (worker_client_timeout offline_env None example_state)) =
     (Inl ConnectionTimeout,
      snd (worker_client_acquire offline_env 10
             (snd (worker_client_timeout offline_env None example_state))))
   \<and> fst (with_contextmanager (worker_client offline_env None True) passing_block
             example_state) = Inl ConnectionTimeout
   \<and> accounted (snd (with_contextmanager (worker_client offline_env None True) passing_block
             example_state)) = [7]"
proof -
  define s1 where "s1 = snd (worker_client_timeout offline_env None example_state)"
  define s2 where "s2 = snd (worker_client_acquire offline_env 10 s1)"
  have t: "worker_client_timeout offline_env None example_state = (Inr 10, s1)"
    unfolding s1_def by (simp add: example_defs)
  have a: "worker_client_acquire offline_env 10 s1 = (Inl ConnectionTimeout, s2)"
    unfolding s2_def s1_def by (simp add: example_defs)
  from worker_client_acquisition_failure
         [of example_state offline_env None True 10 s1 ConnectionTimeout s2 passing_block] t a
  have "with_contextmanager (worker_client offline_env None True) passing_block example_state =
          (Inl ConnectionTimeout, s2)"
    and "accounted s2 = accounted example_state"
    by blast+
  then show ?thesis
    using t a unfolding s1_def s2_def by (simp add: example_state_def)
qed

subsection \<open>The worker is resolved first\<close>

text \<open>
  C8: in every run \<^verbatim>\<open>get_worker\<close> is called before any \<^verbatim>\<open>get_client\<close> and any
  \<^verbatim>\<open>secede\<close>, whatever \<^verbatim>\<open>separate_thread\<close> is. From a thread that executes no
  worker task the generator never yields a client; once the timeout is resolved it fails
  with \<open>NotInTaskContext\<close>, with \<^verbatim>\<open>separate_thread=False\<close> as with \<^verbatim>\<open>True\<close>, having
  called neither \<^verbatim>\<open>get_client\<close> nor \<^verbatim>\<open>secede\<close>, and the block is not entered.
\<close>

theorem worker_client_resolves_worker_first:
  "occurs_first (\<lambda>c. c = GetWorker) (\<lambda>c. is_get_client c \<or> c = SecedeCall)
     (new_calls s (snd (to_yield (worker_client e timeout sep) s)))
   \<and> (thread_key e = None \<longrightarrow>
        (\<forall>c. fst (to_yield (worker_client e timeout sep) s) \<noteq> Inr c)
      \<and> (worker_client_timeout e timeout s = (Inr secs, s1) \<longrightarrow>
           to_yield (worker_client e timeout False) s = (Inl NotInTaskContext, log GetWorker s1)
         \<and> to_yield (worker_client e timeout True) s = (Inl NotInTaskContext, log GetWorker s1)
         \<and> with_contextmanager (worker_client e timeout False) body s =
             (Inl NotInTaskContext, log GetWorker s1)
         \<and> filter is_get_client (new_calls s (log GetWorker s1)) = []
         \<and> filter pool_call (new_calls s (log GetWorker s1)) = []
         \<and> filter is_yield (new_calls s (log GetWorker s1)) = []))"
proof -
  have order: "occurs_first (\<lambda>c. c = GetWorker) (\<lambda>c. is_get_client c \<or> c = SecedeCall)
     (new_calls s (snd (to_yield (worker_client e timeout sep) s)))"
    unfolding worker_client_fields(1) by (rule worker_first)
  have never: "fst (to_yield (worker_client e timeout sep) s) \<noteq> Inr c"
    if idle: "thread_key e = None" for c
  proof
    assume "fst (to_yield (worker_client e timeout sep) s) = Inr c"
    then have "worker_client_to_yield e timeout sep s =
        (Inr c, snd (worker_client_to_yield e timeout sep s))"
      by (simp add: worker_client_fields(1) prod_eq_iff)
    then obtain secs' s1' s2' where "worker_client_acquire e secs' s1' = (Inr c, s2')"
      by (rule to_yield_ok)
    then have "thread_key e \<noteq> None" by (rule acquire_ok(9))
    with idle show False by simp
  qed
  have failure: "to_yield (worker_client e timeout False) s = (Inl NotInTaskContext, log GetWorker s1)
         \<and> to_yield (worker_client e timeout True) s = (Inl NotInTaskContext, log GetWorker s1)
         \<and> with_contextmanager (worker_client e timeout False) body s =
             (Inl NotInTaskContext, log GetWorker s1)
         \<and> filter is_get_client (new_calls s (log GetWorker s1)) = []
         \<and> filter pool_call (new_calls s (log GetWorker s1)) = []
         \<and> filter is_yield (new_calls s (log GetWorker s1)) = []"
    if idle: "thread_key e = None" and t: "worker_client_timeout e timeout s = (Inr secs, s1)"
  proof -
    have a: "worker_client_acquire e secs s1 = (Inl NotInTaskContext, log GetWorker s1)"
      by (simp add: worker_client_acquire_def get_worker_def idle)
    have run: "to_yield (worker_client e timeout b) s = (Inl NotInTaskContext, log GetWorker s1)"
      for b
      by (simp add: worker_client_fields worker_client_to_yield_def t a)
    then have scope: "with_contextmanager (worker_client e timeout False) body s =
        (Inl NotInTaskContext, log GetWorker s1)"
      by (simp add: with_contextmanager_def)
    from timeout_trace [of e timeout s] t obtain xs where
      s1: "s1 = s\<lparr>calls := calls s @ xs\<rparr>" and xs: "list_all resolution_call xs"
      by auto
    have new: "new_calls s (log GetWorker s1) = xs @ [GetWorker]"
      by (simp add: s1 log_def new_calls_def)
    have all: "list_all acquisition_call (xs @ [GetWorker])"
      using list_all_resolution [OF xs] by simp
    have "filter is_get_client (xs @ [GetWorker]) = []"
      using acquisition_no_get_client [OF xs] by simp
    moreover have "filter pool_call (xs @ [GetWorker]) = []"
      using all by (rule acquisition_no_pool)
    moreover have "filter is_yield (xs @ [GetWorker]) = []"
      using all by (rule acquisition_no_yield)
    ultimately show ?thesis
      using run scope unfolding new by simp
  qed
  from order never failure show ?thesis by blast
qed

theorem worker_client_resolves_worker_first_witness:
  "thread_key idle_env = None
   \<and> worker_client_timeout idle_env (Some (Seconds 5)) example_state =
       (Inr 5, log (ParseTimedelta (Seconds 5)) example_state)
   \<and> with_contextmanager (worker_client idle_env (Some (Seconds 5)) False) passing_block
       example_state =
       (Inl NotInTaskContext, log GetWorker (log (ParseTimedelta (Seconds 5)) example_state))
   \<and> new_calls example_state
       (snd (to_yield (worker_client idle_env (Some (Seconds 5)) False) example_state)) =
       [ParseTimedelta (Seconds 5), GetWorker]"
proof -
  have idle: "thread_key idle_env = None"
    by (simp add: example_defs)
  have t: "worker_client_timeout idle_env (Some (Seconds 5)) example_state =
       (Inr 5, log (ParseTimedelta (Seconds 5)) example_state)"
    by (simp add: example_defs)
  from worker_client_resolves_worker_first
         [of example_state idle_env "Some (Seconds 5)" False 5
             "log (ParseTimedelta (Seconds 5)) example_state" passing_block] idle t
  have run: "to_yield (worker_client idle_env (Some (Seconds 5)) False) example_state =
         (Inl NotInTaskContext, log GetWorker (log (ParseTimedelta (Seconds 5)) example_state))"
    and scope: "with_contextmanager (worker_client idle_env (Some (Seconds 5)) False)
         passing_block example_state =
         (Inl NotInTaskContext, log GetWorker (log (ParseTimedelta (Seconds 5)) example_state))"
    by blast+
  show ?thesis
    using idle t scope by (simp add: run log_def new_calls_def)
qed

lemma parse_timedelta_state: "snd (parse_timedelta e d s) = log (ParseTimedelta d) s"
  by (simp add: parse_timedelta_def split: duration.splits option.splits)

lemma timeout_given: "worker_client_timeout e (Some d) s = parse_timedelta e d s"
  by (cases "parse_timedelta e d s") (simp add: worker_client_timeout_def split: sum.splits)

lemma timeout_default:
  "worker_client_timeout e None s =
     (case config e ''distributed.comm.timeouts.connect'' of
        None \<Rightarrow> (Inl (ConfigKeyError ''distributed.comm.timeouts.connect''),
                 log (ConfigGet ''distributed.comm.timeouts.connect'') s)
      | Some d \<Rightarrow> parse_timedelta e d (log (ConfigGet ''distributed.comm.timeouts.connect'') s))"
  by (cases "config e ''distributed.comm.timeouts.connect''")
     (simp_all add: worker_client_timeout_def config_get_def split: sum.splits prod.splits)

lemma to_yield_after_timeout:
  "\<exists>ys. calls (snd (worker_client_to_yield e timeout sep s)) =
           calls (snd (worker_client_timeout e timeout s)) @ ys
        \<and> list_all (\<lambda>c. \<not> resolution_call c) ys
        \<and> (\<forall>secs s1. worker_client_timeout e timeout s = (Inr secs, s1) \<longrightarrow>
             thread_key e \<noteq> None \<longrightarrow> filter is_get_client ys = [GetClient secs])"
proof (cases "worker_client_to_yield e timeout sep s")
  case (Pair r s')
  show ?thesis
  proof (cases r)
    case (Inr c)
    with Pair obtain secs s1 s2 s3 where
      t: "worker_client_timeout e timeout s = (Inr secs, s1)" and
      a: "worker_client_acquire e secs s1 = (Inr c, s2)" and
      sc: "(if sep then worker_client_secede e s2 else (Inr (), s2)) = (Inr (), s3)" and
      y: "s' = log (Yield c) s3"
      by (auto elim!: to_yield_ok)
    have "\<exists>zs. calls s3 = calls s2 @ zs \<and> list_all pool_call zs"
    proof (cases sep)
      case True
      with sc have "worker_client_secede e s2 = (Inr (), s3)" by simp
      then show ?thesis by (rule secede_ok) simp
    next
      case False
      with sc show ?thesis by simp
    qed
    then obtain zs where zs: "calls s3 = calls s2 @ zs" "list_all pool_call zs" by blast
    have quiet: "list_all (\<lambda>c. \<not> resolution_call c) zs \<and> filter is_get_client zs = []"
      using zs(2)
    proof (induction zs)
      case Nil
      show ?case by simp
    next
      case (Cons z zs)
      then show ?case by (cases z) simp_all
    qed
    have "calls s' = calls s1 @ (GetWorker # GetClient secs # (zs @ [Yield c]))"
      by (simp add: y log_def acquire_ok(1)[OF a] zs(1))
    with quiet Pair t show ?thesis
      by (intro exI [of _ "GetWorker # GetClient secs # (zs @ [Yield c])"]) simp
  next
    case (Inl err)
    with Pair have run: "worker_client_to_yield e timeout sep s = (Inl err, s')" by simp
    then show ?thesis
    proof (cases rule: to_yield_fail)
      case timeout
      with Pair show ?thesis
        by (intro exI [of _ "[]"]) simp
    next
      case (acquire secs s1)
      from acquire_fail [OF acquire(2)] consider
        (worker) "thread_key e = None" "calls s' = calls s1 @ [GetWorker]"
      | (client) "thread_key e \<noteq> None" "calls s' = calls s1 @ [GetWorker, GetClient secs]"
        by auto
      then show ?thesis
      proof cases
        case worker
        with Pair acquire(1) show ?thesis
          by (intro exI [of _ "[GetWorker]"]) simp
      next
        case client
        with Pair acquire(1) show ?thesis
          by (intro exI [of _ "[GetWorker, GetClient secs]"]) simp
      qed
    next
      case (secede secs s1 c s2)
      have "calls s' = calls s1 @ [GetWorker, GetClient secs, SecedeCall]"
        by (simp add: secede_fail(1)[OF secede(4)] acquire_ok(1)[OF secede(3)])
      with Pair secede(2) show ?thesis
        by (intro exI [of _ "[GetWorker, GetClient secs, SecedeCall]"]) simp
    qed
  qed
qed

subsection \<open>The effective timeout\<close>

text \<open>
  C5: the parser reads a number as that many seconds and a duration string by the grammar
  of duration strings, and fails with \<open>ParseError\<close> on a string the grammar rejects.
  \<^verbatim>\<open>worker_client\<close> parses the explicit argument when one is given and otherwise the
  value configured under \<^verbatim>\<open>distributed.comm.timeouts.connect\<close>. A failure of the
  resolution is the result of the generator, which then never calls \<^verbatim>\<open>get_client\<close>;
  when the resolution gives a number of seconds, that number is the one timeout passed to
  \<^verbatim>\<open>get_client\<close>.
\<close>

theorem worker_client_effective_timeout:
  "fst (parse_timedelta e (Seconds n) s) = Inr n
   \<and> (parse_str e str = Some n \<longrightarrow> fst (parse_timedelta e (DurStr str) s) = Inr n)
   \<and> (parse_str e str = None \<longrightarrow>
        fst (parse_timedelta e (DurStr str) s) = Inl (ParseError str))
   \<and> worker_client_timeout e (Some d) s = parse_timedelta e d s
   \<and> (config e ''distributed.comm.timeouts.connect'' = Some d \<longrightarrow>
        worker_client_timeout e None s =
          parse_timedelta e d (log (ConfigGet ''distributed.comm.timeouts.connect'') s))
   \<and> (worker_client_timeout e timeout s = (Inl err, s1) \<longrightarrow>
        to_yield (worker_client e timeout sep) s = (Inl err, s1)
      \<and> filter is_get_client (new_calls s s1) = [])
   \<and> (worker_client_timeout e timeout s = (Inr secs, s1) \<longrightarrow> thread_key e \<noteq> None \<longrightarrow>
        filter is_get_client (new_calls s (snd (to_yield (worker_client e timeout sep) s))) =
          [GetClient secs])"
proof -
  have number: "fst (parse_timedelta e (Seconds n) s) = Inr n"
    by (simp add: parse_timedelta_def)
  have parsed: "fst (parse_timedelta e (DurStr str) s) = Inr n" if "parse_str e str = Some n"
    using that by (simp add: parse_timedelta_def)
  have unparsed: "fst (parse_timedelta e (DurStr str) s) = Inl (ParseError str)"
    if "parse_str e str = None"
    using that by (simp add: parse_timedelta_def)
  have given: "worker_client_timeout e (Some d) s = parse_timedelta e d s"
    by (rule timeout_given)
  have default: "worker_client_timeout e None s =
      parse_timedelta e d (log (ConfigGet ''distributed.comm.timeouts.connect'') s)"
    if "config e ''distributed.comm.timeouts.connect'' = Some d"
    using that by (simp add: timeout_default)
  have failing: "to_yield (worker_client e timeout sep) s = (Inl err, s1)
      \<and> filter is_get_client (new_calls s s1) = []"
    if t: "worker_client_timeout e timeout s = (Inl err, s1)"
  proof -
    from timeout_fail [OF t] obtain xs where
      "s1 = s\<lparr>calls := calls s @ xs\<rparr>" "list_all resolution_call xs" by blast
    then have "filter is_get_client (new_calls s s1) = []"
      by (simp add: acquisition_no_get_client)
    then show ?thesis
      by (simp add: worker_client_fields worker_client_to_yield_def t)
  qed
  have passed: "filter is_get_client
        (new_calls s (snd (to_yield (worker_client e timeout sep) s))) = [GetClient secs]"
    if t: "worker_client_timeout e timeout s = (Inr secs, s1)" and task: "thread_key e \<noteq> None"
  proof -
    from timeout_trace [of e timeout s] t obtain xs where
      s1: "s1 = s\<lparr>calls := calls s @ xs\<rparr>" and xs: "list_all resolution_call xs"
      by auto
    from to_yield_after_timeout [of e timeout sep s] t task obtain ys where
      "calls (snd (worker_client_to_yield e timeout sep s)) = calls s1 @ ys"
      "filter is_get_client ys = [GetClient secs]"
      by auto
    then have "new_calls s (snd (worker_client_to_yield e timeout sep s)) = xs @ ys"
      by (simp add: new_calls_def s1)
    with \<open>filter is_get_client ys = [GetClient secs]\<close> acquisition_no_get_client [OF xs]
    show ?thesis by (simp add: worker_client_fields(1))
  qed
  from number parsed unparsed given default failing passed show ?thesis by blast
qed


theorem worker_client_effective_timeout_witness:
  "parse_str example_env ''10s'' = Some 10
   \<and> config example_env ''distributed.comm.timeouts.connect'' = Some (DurStr ''10s'')
   \<and> thread_key example_env \<noteq> None
   \<and> worker_client_timeout example_env None example_state =
       (Inr 10, snd (worker_client_timeout example_env None example_state))
   \<and> filter is_get_client
        (new_calls example_state
           (snd (to_yield (worker_client example_env None True) example_state))) =
       [GetClient 10]
   \<and> parse_str example_env ''soon'' = None
   \<and> worker_client_timeout example_env (Some (DurStr ''soon'')) example_state =
       (Inl (ParseError ''soon''), log (ParseTimedelta (DurStr ''soon'')) example_state)
   \<and> to_yield (worker_client example_env (Some (DurStr ''soon'')) True) example_state =
       (Inl (ParseError ''soon''), log (ParseTimedelta (DurStr ''soon'')) example_state)"
proof -
  have p: "parse_str example_env ''10s'' = Some 10"
    and c: "config example_env ''distributed.comm.timeouts.connect'' = Some (DurStr ''10s'')"
    and k: "thread_key example_env \<noteq> None"
    and u: "parse_str example_env ''soon'' = None"
    by (simp_all add: example_env_def)
  have t: "worker_client_timeout example_env None example_state =
       (Inr 10, snd (worker_client_timeout example_env None example_state))"
    by (simp add: example_defs)
  have f: "worker_client_timeout example_env (Some (DurStr ''soon'')) example_state =
       (Inl (ParseError ''soon''), log (ParseTimedelta (DurStr ''soon'')) example_state)"
    by (simp add: example_defs)
  from worker_client_effective_timeout
         [where e = example_env and s = example_state and timeout = None and sep = True
            and secs = 10 and ?s1.0 = "snd (worker_client_timeout example_env None example_state)"]
       t k
  have used: "filter is_get_client
        (new_calls example_state
           (snd (to_yield (worker_client example_env None True) example_state))) =
       [GetClient 10]"
    by blast
  from worker_client_effective_timeout
         [where e = example_env and s = example_state and timeout = "Some (DurStr ''soon'')"
            and sep = True and err = "ParseError ''soon''"
            and ?s1.0 = "log (ParseTimedelta (DurStr ''soon'')) example_state"]
       f
  have surfaced: "to_yield (worker_client example_env (Some (DurStr ''soon'')) True)
       example_state =
       (Inl (ParseError ''soon''), log (ParseTimedelta (DurStr ''soon'')) example_state)"
    by blast
  from p c k u t f used surfaced show ?thesis by blast
qed

subsection \<open>Only \<^verbatim>\<open>None\<close> is replaced by the default\<close>

text \<open>
  C10: the test of line 46 is \<^verbatim>\<open>timeout is None\<close>. Every explicit timeout, the number
  0 and the empty string among them, goes to the parser as it is: the first call of the
  generator is then the parser on that value and the configuration is never read. Only
  with \<^verbatim>\<open>None\<close> is the first call the lookup of the configured default.
\<close>

theorem explicit_timeout_is_parsed_as_given:
  "worker_client_timeout e (Some d) s = parse_timedelta e d s
   \<and> worker_client_timeout e (Some (Seconds 0)) s = (Inr 0, log (ParseTimedelta (Seconds 0)) s)
   \<and> worker_client_timeout e (Some (DurStr [])) s = parse_timedelta e (DurStr []) s
   \<and> take 1 (new_calls s (snd (to_yield (worker_client e (Some d) sep) s))) =
       [ParseTimedelta d]
   \<and> filter is_config_get (new_calls s (snd (to_yield (worker_client e (Some d) sep) s))) = []
   \<and> take 1 (new_calls s (snd (to_yield (worker_client e None sep) s))) =
       [ConfigGet ''distributed.comm.timeouts.connect'']"
proof -
  have given: "worker_client_timeout e (Some d') s = parse_timedelta e d' s" for d'
    by (rule timeout_given)
  have zero: "worker_client_timeout e (Some (Seconds 0)) s =
      (Inr 0, log (ParseTimedelta (Seconds 0)) s)"
    by (simp add: timeout_given parse_timedelta_def)
  from to_yield_after_timeout [of e "Some d" sep s] obtain ys where
    ys: "calls (snd (worker_client_to_yield e (Some d) sep s)) =
           calls (snd (worker_client_timeout e (Some d) s)) @ ys"
        "list_all (\<lambda>c. \<not> resolution_call c) ys"
    by blast
  have "filter is_config_get ys = []"
    using ys(2)
  proof (induction ys)
    case Nil
    show ?case by simp
  next
    case (Cons y ys)
    then show ?case by (cases y) simp_all
  qed
  moreover have "new_calls s (snd (worker_client_to_yield e (Some d) sep s)) =
      ParseTimedelta d # ys"
    by (simp add: ys(1) timeout_given parse_timedelta_state log_def new_calls_def)
  ultimately have explicit:
    "take 1 (new_calls s (snd (to_yield (worker_client e (Some d) sep) s))) = [ParseTimedelta d]"
    "filter is_config_get (new_calls s (snd (to_yield (worker_client e (Some d) sep) s))) = []"
    by (simp_all add: worker_client_fields(1))
  from to_yield_after_timeout [of e None sep s] obtain zs where
    zs: "calls (snd (worker_client_to_yield e None sep s)) =
           calls (snd (worker_client_timeout e None s)) @ zs"
    by blast
  have "\<exists>ws. calls (snd (worker_client_timeout e None s)) =
      calls s @ ConfigGet ''distributed.comm.timeouts.connect'' # ws"
    by (cases "config e ''distributed.comm.timeouts.connect''")
       (simp_all add: timeout_default parse_timedelta_state log_def)
  then obtain ws where "calls (snd (worker_client_timeout e None s)) =
      calls s @ ConfigGet ''distributed.comm.timeouts.connect'' # ws" ..
  with zs have "new_calls s (snd (worker_client_to_yield e None sep s)) =
      ConfigGet ''distributed.comm.timeouts.connect'' # ws @ zs"
    by (simp add: new_calls_def)
  then have default:
    "take 1 (new_calls s (snd (to_yield (worker_client e None sep) s))) =
       [ConfigGet ''distributed.comm.timeouts.connect'']"
    by (simp add: worker_client_fields(1))
  from given [of d] given [of "DurStr []"] zero explicit default show ?thesis by blast
qed

theorem explicit_timeout_is_parsed_as_given_witness:
  "new_calls example_state
     (snd (to_yield (worker_client example_env (Some (Seconds 0)) True) example_state)) =
     [ParseTimedelta (Seconds 0), GetWorker, GetClient 0]
   \<and> fst (to_yield (worker_client example_env (Some (Seconds 0)) True) example_state) =
       Inl ConnectionTimeout
   \<and> worker_client_timeout example_env (Some (DurStr [])) example_state =
       (Inl (ParseError []), log (ParseTimedelta (DurStr [])) example_state)"
proof -
  have trace: "new_calls example_state
     (snd (to_yield (worker_client example_env (Some (Seconds 0)) True) example_state)) =
     [ParseTimedelta (Seconds 0), GetWorker, GetClient 0]"
    and result: "fst (to_yield (worker_client example_env (Some (Seconds 0)) True)
       example_state) = Inl ConnectionTimeout"
    by (simp_all add: example_defs)
  have empty: "parse_timedelta example_env (DurStr []) example_state =
      (Inl (ParseError []), log (ParseTimedelta (DurStr [])) example_state)"
    by (simp add: example_defs)
  from explicit_timeout_is_parsed_as_given
         [where e = example_env and d = "Seconds 0" and s = example_state and sep = True]
  have "worker_client_timeout example_env (Some (DurStr [])) example_state =
      parse_timedelta example_env (DurStr []) example_state"
    by blast
  with trace result empty show ?thesis by simp
qed

lemma to_yield_error_kinds:
  assumes "worker_client_to_yield e timeout sep s = (Inl err, s')"
  shows "(\<exists>k. err = ConfigKeyError k) \<or> (\<exists>str. err = ParseError str)
       \<or> err = NotInTaskContext \<or> err = ConnectionTimeout
       \<or> (\<exists>secs s1 c s2. sep \<and> worker_client_timeout e timeout s = (Inr secs, s1)
             \<and> worker_client_acquire e secs s1 = (Inr c, s2)
             \<and> current_task e s2 = Inl err)"
  using assms
proof (cases rule: to_yield_fail)
  case timeout
  from timeout_fail_error [OF this] show ?thesis by blast
next
  case (acquire secs s1)
  from acquire_fail [OF acquire(2)] show ?thesis by blast
next
  case (secede secs s1 c s2)
  with secede_fail(2) [OF secede(4)] show ?thesis by blast
qed

lemma tasks_at_secede:
  assumes "worker_client_timeout e timeout s = (Inr secs, s1)"
      and "worker_client_acquire e secs s1 = (Inr c, s2)"
  shows "tasks s2 = tasks s" and "callbacks s2 = callbacks s"
proof -
  from timeout_trace [of e timeout s] assms(1) obtain xs where
    "s1 = s\<lparr>calls := calls s @ xs\<rparr>" by auto
  then show "tasks s2 = tasks s" and "callbacks s2 = callbacks s"
    by (simp_all add: acquire_ok(3,4) [OF assms(2)])
qed

subsection \<open>The task record is bound when the thread secedes\<close>

text \<open>
  C9: the second argument of \<^verbatim>\<open>add_callback\<close> is \<^verbatim>\<open>worker.tasks[thread_state.key]\<close>,
  evaluated on the calling thread right after \<^verbatim>\<open>secede\<close>. When the thread executes a
  task whose key is in the task table, the generator never fails with a \<open>KeyError\<close> or an
  \<open>AttributeError\<close>; once the timeout is resolved and the client acquired it yields, and
  the entry it has put last in the queue of the event loop holds the record that the table
  gave for the key at that moment, whatever the table becomes afterwards.
\<close>

theorem task_record_bound_at_secede:
  assumes key: "thread_key e = Some k" and present: "tasks s k = Some ts"
  shows "(\<forall>k'. fst (to_yield (worker_client e timeout True) s) \<noteq> Inl (KeyError k'))
       \<and> (\<forall>a. fst (to_yield (worker_client e timeout True) s) \<noteq> Inl (AttributeError a))
       \<and> (\<forall>secs s1 c s2.
             worker_client_timeout e timeout s = (Inr secs, s1) \<longrightarrow>
             worker_client_acquire e secs s1 = (Inr c, s2) \<longrightarrow>
               to_yield (worker_client e timeout True) s =
                 (Inr c, log (Yield c) (add_callback ts ''long-running'' (secede e s2))))
       \<and> (\<forall>c s'. to_yield (worker_client e timeout True) s = (Inr c, s') \<longrightarrow>
               callbacks s' = callbacks s @ [(ts, ''long-running'')]
             \<and> AddCallback ts ''long-running'' \<in> set (new_calls s s')
             \<and> (\<forall>m. callbacks (s'\<lparr>tasks := m\<rparr>) = callbacks s @ [(ts, ''long-running'')]))"
proof -
  have lookup: "current_task e s2 = Inr ts" if "tasks s2 = tasks s" for s2
    using that by (simp add: current_task_def key present)
  have kinds: "(\<exists>k. err = ConfigKeyError k) \<or> (\<exists>str. err = ParseError str)
       \<or> err = NotInTaskContext \<or> err = ConnectionTimeout"
    if "fst (to_yield (worker_client e timeout True) s) = Inl err" for err
  proof -
    from that have "worker_client_to_yield e timeout True s =
        (Inl err, snd (worker_client_to_yield e timeout True s))"
      by (simp add: worker_client_fields(1) prod_eq_iff)
    from to_yield_error_kinds [OF this] consider
      (early) "(\<exists>k. err = ConfigKeyError k) \<or> (\<exists>str. err = ParseError str)
         \<or> err = NotInTaskContext \<or> err = ConnectionTimeout"
    | (late) secs s1 c s2 where
        "worker_client_timeout e timeout s = (Inr secs, s1)"
        "worker_client_acquire e secs s1 = (Inr c, s2)"
        "current_task e s2 = Inl err"
      by blast
    then show ?thesis
    proof cases
      case early
      then show ?thesis .
    next
      case late
      from lookup [OF tasks_at_secede(1) [OF late(1) late(2)]] late(3)
      show ?thesis by simp
    qed
  qed
  have no_key: "fst (to_yield (worker_client e timeout True) s) \<noteq> Inl (KeyError k')" for k'
    using kinds [of "KeyError k'"] by auto
  have no_attr: "fst (to_yield (worker_client e timeout True) s) \<noteq> Inl (AttributeError a)" for a
    using kinds [of "AttributeError a"] by auto
  have enters: "to_yield (worker_client e timeout True) s =
        (Inr c, log (Yield c) (add_callback ts ''long-running'' (secede e s2)))"
    if t: "worker_client_timeout e timeout s = (Inr secs, s1)"
    and a: "worker_client_acquire e secs s1 = (Inr c, s2)" for secs s1 c s2
  proof -
    have "tasks (secede e s2) = tasks s"
      by (simp add: secede_def log_def tasks_at_secede(1) [OF t a])
    then have "current_task e (secede e s2) = Inr ts" by (rule lookup)
    then have "worker_client_secede e s2 =
        (Inr (), add_callback ts ''long-running'' (secede e s2))"
      by (simp add: worker_client_secede_def Let_def)
    then show ?thesis
      by (simp add: worker_client_fields(1) worker_client_to_yield_def t a)
  qed
  have queued: "callbacks s' = callbacks s @ [(ts, ''long-running'')]
             \<and> AddCallback ts ''long-running'' \<in> set (new_calls s s')
             \<and> (\<forall>m. callbacks (s'\<lparr>tasks := m\<rparr>) = callbacks s @ [(ts, ''long-running'')])"
    if run: "to_yield (worker_client e timeout True) s = (Inr c, s')" for c s'
  proof -
    from run have "worker_client_to_yield e timeout True s = (Inr c, s')"
      by (simp add: worker_client_fields(1))
    then obtain secs s1 s2 where
      t: "worker_client_timeout e timeout s = (Inr secs, s1)" and
      a: "worker_client_acquire e secs s1 = (Inr c, s2)"
      by (rule to_yield_ok)
    from enters [OF t a] run
    have s': "s' = log (Yield c) (add_callback ts ''long-running'' (secede e s2))"
      by simp
    from timeout_trace [of e timeout s] t obtain xs where
      s1: "s1 = s\<lparr>calls := calls s @ xs\<rparr>" by auto
    have cb: "callbacks s' = callbacks s @ [(ts, ''long-running'')]"
      by (simp add: s' log_def add_callback_def secede_def tasks_at_secede(2) [OF t a])
    have "calls s' = calls s @ xs @ [GetWorker, GetClient secs, SecedeCall,
        AddCallback ts ''long-running'', Yield c]"
      by (simp add: s' log_def add_callback_def secede_def acquire_ok(1) [OF a] s1)
    then have "AddCallback ts ''long-running'' \<in> set (new_calls s s')"
      by (simp add: new_calls_def)
    with cb show ?thesis by simp
  qed
  from no_key no_attr enters queued show ?thesis by blast
qed

theorem task_record_bound_at_secede_witness:
  "thread_key example_env = Some ''inc-1''
   \<and> tasks example_state ''inc-1'' = Some 42
   \<and> fst (to_yield (worker_client example_env None True) example_state) = Inr 0
   \<and> callbacks (snd (to_yield (worker_client example_env None True) example_state)) =
       [(42, ''long-running'')]"
proof -
  define s' where "s' = snd (to_yield (worker_client example_env None True) example_state)"
  have key: "thread_key example_env = Some ''inc-1''"
    by (simp add: example_env_def)
  have present: "tasks example_state ''inc-1'' = Some 42"
    by (simp add: example_state_def)
  have run: "to_yield (worker_client example_env None True) example_state = (Inr 0, s')"
    unfolding s'_def by (simp add: example_defs)
  from task_record_bound_at_secede [OF key present, where timeout = None] run
  have "callbacks s' = callbacks example_state @ [(42, ''long-running'')]"
    by blast
  then have queue: "callbacks s' = [(42, ''long-running'')]"
    by (simp add: example_state_def)
  from run have "fst (to_yield (worker_client example_env None True) example_state) = Inr 0"
    by simp
  with key present queue show ?thesis
    unfolding s'_def by simp
qed






lemma to_yield_client:
  assumes "worker_client_to_yield e timeout sep s = (Inr c, s')"
  shows "cached_client s' = Some c"
    and "connections s' \<le> Suc (connections s)"
    and "cached_client s = Some c0 \<Longrightarrow> c = c0 \<and> connections s' = connections s"
proof -
  from assms obtain secs s1 s2 s3 where
    t: "worker_client_timeout e timeout s = (Inr secs, s1)" and
    a: "worker_client_acquire e secs s1 = (Inr c, s2)" and
    sc: "(if sep then worker_client_secede e s2 else (Inr (), s2)) = (Inr (), s3)" and
    y: "s' = log (Yield c) s3"
    by (rule to_yield_ok)
  from timeout_trace [of e timeout s] t obtain xs where
    s1: "s1 = s\<lparr>calls := calls s @ xs\<rparr>" by auto
  have same: "cached_client s3 = cached_client s2 \<and> connections s3 = connections s2"
  proof (cases sep)
    case True
    with sc have "worker_client_secede e s2 = (Inr (), s3)" by simp
    then show ?thesis by (rule secede_ok) simp
  next
    case False
    with sc show ?thesis by simp
  qed
  show "cached_client s' = Some c"
    by (simp add: y log_def same acquire_ok(2) [OF a])
  show "connections s' \<le> Suc (connections s)"
    using acquire_ok(11) [OF a] by (simp add: y log_def same s1)
  show "c = c0 \<and> connections s' = connections s" if "cached_client s = Some c0"
    using acquire_ok(10) [OF a, of c0] that by (simp add: y log_def same s1)
qed




subsection \<open>The deprecated alias\<close>





lemma acquire_is_get_client:
  assumes "worker_client_acquire e secs sa = (Inr c, sb)"
  shows "get_client e secs (snd (get_worker e sa)) = (Inr c, sb)"
  using assms
  by (auto simp: worker_client_acquire_def get_worker_def split: option.splits)

lemma get_client_called_once:
  assumes t: "worker_client_timeout e timeout s = (Inr secs, sa)"
      and task: "thread_key e \<noteq> None"
  shows "filter is_get_client (new_calls s (snd (worker_client_to_yield e timeout sep s))) =
           [GetClient secs]"
proof -
  from timeout_trace [of e timeout s] t obtain xs where
    sa: "sa = s\<lparr>calls := calls s @ xs\<rparr>" and xs: "list_all resolution_call xs"
    by auto
  from to_yield_after_timeout [of e timeout sep s] t task obtain ys where
    "calls (snd (worker_client_to_yield e timeout sep s)) = calls sa @ ys"
    "filter is_get_client ys = [GetClient secs]"
    by auto
  then have "new_calls s (snd (worker_client_to_yield e timeout sep s)) = xs @ ys"
    by (simp add: new_calls_def sa)
  with \<open>filter is_get_client ys = [GetClient secs]\<close> acquisition_no_get_client [OF xs]
  show ?thesis by simp
qed

subsection \<open>One client for the process\<close>

text \<open>
  C7: the client that \<^verbatim>\<open>worker_client\<close> yields is the result of its one call of
  \<^verbatim>\<open>get_client\<close>, made with the resolved timeout right after \<^verbatim>\<open>get_worker\<close>, and the
  cache and the count of connections it leaves are those \<^verbatim>\<open>get_client\<close> left. So the
  yielded client is cached, at most one connection is opened, and when a client is cached
  on entry that very client is yielded and no connection is opened. Hence any later
  invocation, by any thread and task of the process and with any arguments, that starts
  while the cache still holds the client of an earlier one yields the identical client and
  opens no connection.
\<close>

theorem worker_client_yields_cached_client:
  assumes first: "to_yield (worker_client e1 timeout1 sep1) s = (Inr c1, s1)"
  shows "(\<exists>secs sa sb.
            worker_client_timeout e1 timeout1 s = (Inr secs, sa)
          \<and> get_client e1 secs (snd (get_worker e1 sa)) = (Inr c1, sb)
          \<and> filter is_get_client (new_calls s s1) = [GetClient secs]
          \<and> cached_client s1 = cached_client sb
          \<and> connections s1 = connections sb)
       \<and> cached_client s1 = Some c1
       \<and> connections s1 \<le> Suc (connections s)
       \<and> (\<forall>c0. cached_client s = Some c0 \<longrightarrow> c1 = c0 \<and> connections s1 = connections s)
       \<and> (\<forall>e2 timeout2 sep2 s2 c2 s3.
            cached_client s2 = cached_client s1 \<longrightarrow>
            to_yield (worker_client e2 timeout2 sep2) s2 = (Inr c2, s3) \<longrightarrow>
              c2 = c1 \<and> connections s3 = connections s2 \<and> cached_client s3 = Some c1)"
proof -
  from first have run: "worker_client_to_yield e1 timeout1 sep1 s = (Inr c1, s1)"
    by (simp add: worker_client_fields(1))
  then obtain secs sa sb s3' where
    t: "worker_client_timeout e1 timeout1 s = (Inr secs, sa)" and
    a: "worker_client_acquire e1 secs sa = (Inr c1, sb)" and
    sc: "(if sep1 then worker_client_secede e1 sb else (Inr (), sb)) = (Inr (), s3')" and
    y: "s1 = log (Yield c1) s3'"
    by (rule to_yield_ok)
  have same: "cached_client s3' = cached_client sb \<and> connections s3' = connections sb"
  proof (cases sep1)
    case True
    with sc have "worker_client_secede e1 sb = (Inr (), s3')" by simp
    then show ?thesis by (rule secede_ok) simp
  next
    case False
    with sc show ?thesis by simp
  qed
  have accessor: "get_client e1 secs (snd (get_worker e1 sa)) = (Inr c1, sb)"
    using a by (rule acquire_is_get_client)
  have called: "filter is_get_client (new_calls s s1) = [GetClient secs]"
    using get_client_called_once [OF t acquire_ok(9) [OF a], of sep1] run by simp
  have kept: "cached_client s1 = cached_client sb \<and> connections s1 = connections sb"
    using same by (simp add: y log_def)
  have cached: "cached_client s1 = Some c1"
    using run by (rule to_yield_client(1))
  have opened: "connections s1 \<le> Suc (connections s)"
    using run by (rule to_yield_client(2))
  have reuse: "c1 = c0 \<and> connections s1 = connections s" if "cached_client s = Some c0" for c0
    using to_yield_client(3) [OF run that] .
  have later: "c2 = c1 \<and> connections s3 = connections s2 \<and> cached_client s3 = Some c1"
    if k: "cached_client s2 = cached_client s1"
    and second: "to_yield (worker_client e2 timeout2 sep2) s2 = (Inr c2, s3)"
    for e2 timeout2 sep2 s2 c2 s3
  proof -
    from second have run2: "worker_client_to_yield e2 timeout2 sep2 s2 = (Inr c2, s3)"
      by (simp add: worker_client_fields(1))
    from k cached have "cached_client s2 = Some c1" by simp
    from to_yield_client(3) [OF run2 this] to_yield_client(1) [OF run2]
    show ?thesis by simp
  qed
  from t accessor called kept cached opened reuse later show ?thesis
    by blast
qed


theorem worker_client_yields_cached_client_witness:
  "fst (to_yield (worker_client example_env None True) example_state) = Inr 0
   \<and> cached_client (snd (to_yield (worker_client example_env None True) example_state)) =
       Some 0
   \<and> fst (to_yield (worker_client other_env (Some (Seconds 3)) False)
            (snd (to_yield (worker_client example_env None True) example_state))) = Inr 0
   \<and> connections (snd (to_yield (worker_client other_env (Some (Seconds 3)) False)
            (snd (to_yield (worker_client example_env None True) example_state)))) = 1"
proof -
  define s1 where "s1 = snd (to_yield (worker_client example_env None True) example_state)"
  define s3 where "s3 = snd (to_yield (worker_client other_env (Some (Seconds 3)) False) s1)"
  have first: "to_yield (worker_client example_env None True) example_state = (Inr 0, s1)"
    unfolding s1_def by (simp add: example_defs)
  have second: "to_yield (worker_client other_env (Some (Seconds 3)) False) s1 = (Inr 0, s3)"
    unfolding s3_def s1_def by (simp add: example_defs other_env_def)
  have opened: "connections s1 = 1"
    unfolding s1_def by (simp add: example_defs)
  from worker_client_yields_cached_client [OF first]
  have cached: "cached_client s1 = Some 0"
    and later: "\<And>e2 timeout2 sep2 s2 c2 s3.
        cached_client s2 = cached_client s1 \<Longrightarrow>
        to_yield (worker_client e2 timeout2 sep2) s2 = (Inr c2, s3) \<Longrightarrow>
        connections s3 = connections s2"
    by blast+
  from later [OF refl second] opened have total: "connections s3 = 1" by simp
  from first have one: "fst (to_yield (worker_client example_env None True) example_state) = Inr 0"
    by simp
  from second have two: "fst (to_yield (worker_client other_env (Some (Seconds 3)) False) s1) =
      Inr 0"
    by simp
  from one cached two total show ?thesis
    unfolding s1_def s3_def by simp
qed

subsection \<open>Leaving the scope\<close>

text \<open>
  C1: the claim is that \<^verbatim>\<open>rejoin\<close> runs on every exit of a scope entered with
  \<^verbatim>\<open>separate_thread=True\<close>, so that the number of accounted slots is restored also when
  the block raises. The yield of line 59 stands in no \<^verbatim>\<open>try\<close> statement, so an exception
  of the block leaves the generator at the yield and lines 61 and 62 do not run. Here
  thread 7 enters the scope and its block raises at once: the error reaches the caller, the
  last call recorded is the yield, no \<^verbatim>\<open>rejoin\<close> follows, and the pool counts 0 threads
  where it counted 1 before, thread 7 staying seceded. With a block that completes, the
  same entry ends with \<^verbatim>\<open>rejoin\<close> and the count is 1 again.
\<close>

theorem worker_client_raising_block_skips_rejoin:
  "fst (with_contextmanager (worker_client example_env None True) raising_block example_state) =
     Inl (BlockError ''boom'')
   \<and> calls (snd (with_contextmanager (worker_client example_env None True) raising_block
        example_state)) =
       [ConfigGet ''distributed.comm.timeouts.connect'', ParseTimedelta (DurStr ''10s''),
        GetWorker, GetClient 10, SecedeCall, AddCallback 42 ''long-running'', Yield 0]
   \<and> slots example_state = 1
   \<and> slots (snd (with_contextmanager (worker_client example_env None True) raising_block
        example_state)) = 0
   \<and> seceded (snd (with_contextmanager (worker_client example_env None True) raising_block
        example_state)) = [7]
   \<and> calls (snd (with_contextmanager (worker_client example_env None True) passing_block
        example_state)) =
       [ConfigGet ''distributed.comm.timeouts.connect'', ParseTimedelta (DurStr ''10s''),
        GetWorker, GetClient 10, SecedeCall, AddCallback 42 ''long-running'', Yield 0,
        RejoinCall]
   \<and> slots (snd (with_contextmanager (worker_client example_env None True) passing_block
        example_state)) = 1"
proof -
  have failed: "fst (with_contextmanager (worker_client example_env None True) raising_block
      example_state) = Inl (BlockError ''boom'')"
    by (simp add: example_defs)
  have trace: "calls (snd (with_contextmanager (worker_client example_env None True)
      raising_block example_state)) =
       [ConfigGet ''distributed.comm.timeouts.connect'', ParseTimedelta (DurStr ''10s''),
        GetWorker, GetClient 10, SecedeCall, AddCallback 42 ''long-running'', Yield 0]"
    by (simp add: example_defs)
  have before: "slots example_state = 1"
    by (simp add: example_defs)
  have after: "slots (snd (with_contextmanager (worker_client example_env None True)
      raising_block example_state)) = 0"
    by (simp add: example_defs)
  have out: "seceded (snd (with_contextmanager (worker_client example_env None True)
      raising_block example_state)) = [7]"
    by (simp add: example_defs)
  have normal: "calls (snd (with_contextmanager (worker_client example_env None True)
      passing_block example_state)) =
       [ConfigGet ''distributed.comm.timeouts.connect'', ParseTimedelta (DurStr ''10s''),
        GetWorker, GetClient 10, SecedeCall, AddCallback 42 ''long-running'', Yield 0,
        RejoinCall]"
    by (simp add: example_defs)
  have restored: "slots (snd (with_contextmanager (worker_client example_env None True)
      passing_block example_state)) = 1"
    by (simp add: example_defs)
  from failed trace before after out normal restored show ?thesis
    by (intro conjI)
qed

end
